theory Spec2Isabelle
  imports Main "HOL-Library.Multiset"
begin

section \<open>Data model of \<open>EDGAR_SEC.py\<close>\<close>

text \<open>
  The extraction core of \<open>EDGAR_SEC.py\<close> works on the JSON document returned by the
  company-facts API. The nesting is
  \<open>facts_data[taxonomy][concept]['units']['USD'] = [entry, ...]\<close>, where every entry is a
  dict with (among others) the keys \<open>'accn'\<close> and \<open>'val'\<close>.

  Scalars stored in an entry are JSON scalars. The code never computes with a number, it
  only hands it on, so the numeric type is a parameter \<open>'n\<close>. \<open>JNull\<close> is Python's
  \<open>None\<close>.
\<close>

datatype 'n jval = JNull | JNum 'n | JStr string

text \<open>An entry of a unit's list: a dict from field name to scalar.\<close>

type_synonym 'n entry = "string \<rightharpoonup> 'n jval"

text \<open>
  The dict of one concept. Only its \<open>'units'\<close> key is read; the key may be missing, which
  is \<open>None\<close> here. Under it sits a dict from unit name to the list of entries.
\<close>

record 'n item_data =
  units :: "(string \<rightharpoonup> 'n entry list) option"

type_synonym 'n facts_data = "string \<rightharpoonup> (string \<rightharpoonup> 'n item_data)"

text \<open>
  \<open>items\<close> is iterated with \<open>items.items()\<close> and \<open>data\<close> is filled in that order, so both
  are association lists in insertion order. Each column of \<open>data\<close> is a Python list.
\<close>

type_synonym items = "(string \<times> string) list"

type_synonym 'n data = "(string \<times> 'n jval list) list"

text \<open>The exceptions the extraction code can raise on data of these types.\<close>

datatype py_error = KeyError | ValueError

section \<open>Python primitives used by the code\<close>

text \<open>
  \<open>s.split(sep)\<close> for a one-character separator: the pieces between the separators, empty
  pieces included; a string without separator gives a one-element list.
\<close>

fun split_acc :: "char \<Rightarrow> string \<Rightarrow> string \<Rightarrow> string list" where
  "split_acc sep acc [] = [rev acc]"
| "split_acc sep acc (c # cs) =
     (if c = sep then rev acc # split_acc sep [] cs else split_acc sep (c # acc) cs)"

definition split_str :: "string \<Rightarrow> char \<Rightarrow> string list" where
  "split_str s sep = split_acc sep [] s"

text \<open>
  \<open>a, b = xs\<close>: unpacking into two names raises \<open>ValueError\<close> unless \<open>xs\<close> has exactly two
  elements.
\<close>

fun unpack2 :: "'a list \<Rightarrow> py_error + ('a \<times> 'a)" where
  "unpack2 [a, b] = Inr (a, b)"
| "unpack2 _ = Inl ValueError"

text \<open>
  \<open>d[k] = v\<close> on an insertion-ordered dict: an existing key keeps its position and gets
  the new value, a new key is appended.
\<close>

fun dict_set :: "('k \<times> 'a) list \<Rightarrow> 'k \<Rightarrow> 'a \<Rightarrow> ('k \<times> 'a) list" where
  "dict_set [] k v = [(k, v)]"
| "dict_set ((k', v') # d) k v =
     (if k' = k then (k, v) # d else (k', v') # dict_set d k v)"

section \<open>The extraction functions\<close>

text \<open>
  The \<open>for entry in item_data['units']['USD']\<close> loop of \<open>get_value_for_accession\<close>.
  \<open>entry['accn']\<close> and \<open>entry['val']\<close> raise \<open>KeyError\<close> on a missing key. \<open>==\<close> between a
  string and a value that is not a string is \<open>False\<close>. Falling out of the loop reaches
  \<open>return None\<close>.
\<close>

fun scan_entries :: "'n entry list \<Rightarrow> string \<Rightarrow> py_error + 'n jval" where
  "scan_entries [] accession_number = Inr JNull"
| "scan_entries (entry # rest) accession_number =
     (case entry ''accn'' of
        None \<Rightarrow> Inl KeyError
      | Some a \<Rightarrow>
          if a = JStr accession_number
          then (case entry ''val'' of None \<Rightarrow> Inl KeyError | Some v \<Rightarrow> Inr v)
          else scan_entries rest accession_number)"

definition get_value_for_accession :: "'n item_data \<Rightarrow> string \<Rightarrow> py_error + 'n jval" where
  "get_value_for_accession item_data accession_number =
     (case units item_data of
        None \<Rightarrow> Inr JNull
      | Some us \<Rightarrow>
          (case us ''USD'' of
             None \<Rightarrow> Inr JNull
           | Some usd \<Rightarrow> scan_entries usd accession_number))"

text \<open>
  The body of the loop of \<open>process_financial_statement\<close> for one \<open>(label, item_key)\<close>
  pair, returning the updated \<open>data\<close>. The two \<open>logger.info\<close> calls have no effect on
  the result and are left out.
\<close>

definition process_item ::
  "'n facts_data \<Rightarrow> string \<Rightarrow> 'n data \<Rightarrow> string \<times> string \<Rightarrow> py_error + 'n data" where
  "process_item facts_data accession_number data p =
     (case p of (label, item_key) \<Rightarrow>
       (case unpack2 (split_str item_key CHR '':'') of
          Inl e \<Rightarrow> Inl e
        | Inr (taxonomy, concept) \<Rightarrow>
            (case facts_data taxonomy of
               None \<Rightarrow> Inr data
             | Some concepts \<Rightarrow>
                 (case concepts concept of
                    None \<Rightarrow> Inr data
                  | Some item_data \<Rightarrow>
                      (case get_value_for_accession item_data accession_number of
                         Inl e \<Rightarrow> Inl e
                       | Inr v \<Rightarrow>
                           if v \<noteq> JNull then Inr (dict_set data label [v])
                           else Inr data)))))"

fun process_loop ::
  "'n facts_data \<Rightarrow> string \<Rightarrow> items \<Rightarrow> 'n data \<Rightarrow> py_error + 'n data" where
  "process_loop facts_data accession_number [] data = Inr data"
| "process_loop facts_data accession_number (p # rest) data =
     (case process_item facts_data accession_number data p of
        Inl e \<Rightarrow> Inl e
      | Inr data' \<Rightarrow> process_loop facts_data accession_number rest data')"

text \<open>
  \<open>process_financial_statement\<close> returns \<open>pd.DataFrame(data)\<close>: a frame of one row whose
  columns are the keys of \<open>data\<close>, each column a one-element list. The model returns
  \<open>data\<close> itself.
\<close>

definition process_financial_statement ::
  "'n facts_data \<Rightarrow> items \<Rightarrow> string \<Rightarrow> string \<Rightarrow> py_error + 'n data" where
  "process_financial_statement facts_data items filing_date accession_number =
     process_loop facts_data accession_number items []"

definition income_items :: items where
  "income_items =
     [(''Revenue'', ''us-gaap:Revenues''),
      (''Cost of Revenue'', ''us-gaap:CostOfRevenue''),
      (''Gross Profit'', ''us-gaap:GrossProfit''),
      (''Operating Expenses'', ''us-gaap:OperatingExpenses''),
      (''Operating Income'', ''us-gaap:OperatingIncomeLoss''),
      (''Net Income'', ''us-gaap:NetIncomeLoss'')]"

definition process_income_statement ::
  "'n facts_data \<Rightarrow> string \<Rightarrow> string \<Rightarrow> py_error + 'n data" where
  "process_income_statement facts_data filing_date accession_number =
     process_financial_statement facts_data income_items filing_date accession_number"

definition cash_flow_items :: items where
  "cash_flow_items =
     [(''Cash from Operating Activities'', ''us-gaap:NetCashProvidedByUsedInOperatingActivities''),
      (''Cash from Investing Activities'', ''us-gaap:NetCashProvidedByUsedInInvestingActivities''),
      (''Cash from Financing Activities'', ''us-gaap:NetCashProvidedByUsedInFinancingActivities''),
      (''Net Change in Cash'', ''us-gaap:NetIncreaseDecreaseInCash'')]"

definition process_cash_flow_statement ::
  "'n facts_data \<Rightarrow> string \<Rightarrow> string \<Rightarrow> py_error + 'n data" where
  "process_cash_flow_statement facts_data filing_date accession_number =
     process_financial_statement facts_data cash_flow_items filing_date accession_number"

definition balance_sheet_items :: items where
  "balance_sheet_items =
     [(''Total Assets'', ''us-gaap:Assets''),
      (''Total Liabilities'', ''us-gaap:Liabilities''),
      (''Total Equity'', ''us-gaap:StockholdersEquity''),
      (''Cash and Cash Equivalents'', ''us-gaap:CashAndCashEquivalentsAtCarryingValue''),
      (''Total Current Assets'', ''us-gaap:AssetsCurrent''),
      (''Total Current Liabilities'', ''us-gaap:LiabilitiesCurrent'')]"

definition process_balance_sheet ::
  "'n facts_data \<Rightarrow> string \<Rightarrow> string \<Rightarrow> py_error + 'n data" where
  "process_balance_sheet facts_data filing_date accession_number =
     process_financial_statement facts_data balance_sheet_items filing_date accession_number"

section \<open>Vocabulary of the properties\<close>

text \<open>An observation as the data model describes it: an accession string and a number.\<close>

definition observation :: "string \<Rightarrow> 'n \<Rightarrow> 'n entry" where
  "observation a v = [''accn'' \<mapsto> JStr a, ''val'' \<mapsto> JNum v]"

text \<open>An item record holding exactly the given list under \<open>'units'\<close>, \<open>'USD'\<close>.\<close>

definition usd_item :: "'n entry list \<Rightarrow> 'n item_data" where
  "usd_item usd = \<lparr>units = Some [''USD'' \<mapsto> usd]\<rparr>"

text \<open>The entry belongs to the filing: its accession field equals the target.\<close>

definition matches :: "string \<Rightarrow> 'n entry \<Rightarrow> bool" where
  "matches accession_number entry = (entry ''accn'' = Some (JStr accession_number))"

text \<open>
  A well-formed observation has an accession string and a numeric value; other fields
  are free.
\<close>

definition wf_observation :: "'n entry \<Rightarrow> bool" where
  "wf_observation entry =
     (case entry ''accn'' of
        Some (JStr a) \<Rightarrow> (case entry ''val'' of Some (JNum n) \<Rightarrow> True | _ \<Rightarrow> False)
      | _ \<Rightarrow> False)"

text \<open>
  What the loop body of \<open>process_financial_statement\<close> looks up for one item key, before
  it touches \<open>data\<close>: the error of a key that does not unpack, \<open>None\<close> for a taxonomy or
  concept that the repository lacks, and the result of \<open>get_value_for_accession\<close>
  otherwise.
\<close>

definition label_value :: "'n facts_data \<Rightarrow> string \<Rightarrow> string \<Rightarrow> py_error + 'n jval" where
  "label_value facts_data accession_number item_key =
     (case unpack2 (split_str item_key CHR '':'') of
        Inl e \<Rightarrow> Inl e
      | Inr (taxonomy, concept) \<Rightarrow>
          (case facts_data taxonomy of
             None \<Rightarrow> Inr JNull
           | Some concepts \<Rightarrow>
               (case concepts concept of
                  None \<Rightarrow> Inr JNull
                | Some item_data \<Rightarrow> get_value_for_accession item_data accession_number)))"

text \<open>A well-formed item key is a \<open>taxonomy:concept\<close> pair: it has exactly one colon.\<close>

definition wf_item_key :: "string \<Rightarrow> bool" where
  "wf_item_key item_key = (count_list item_key CHR '':'' = 1)"

definition wf_items :: "items \<Rightarrow> bool" where
  "wf_items items = list_all (\<lambda>(label, item_key). wf_item_key item_key) items"

text \<open>A well-formed repository holds well-formed observations in every \<open>'USD'\<close> list.\<close>

definition wf_facts :: "'n facts_data \<Rightarrow> bool" where
  "wf_facts facts_data =
     (\<forall>taxonomy concepts concept item_data us usd.
        facts_data taxonomy = Some concepts \<longrightarrow> concepts concept = Some item_data \<longrightarrow>
        units item_data = Some us \<longrightarrow> us ''USD'' = Some usd \<longrightarrow>
        list_all wf_observation usd)"

text \<open>
  No \<open>'USD'\<close> list of the repository has an observation of the given filing: every
  entry carries an accession field, and it differs from the target.
\<close>

definition no_observation_for :: "string \<Rightarrow> 'n facts_data \<Rightarrow> bool" where
  "no_observation_for accession_number facts_data =
     (\<forall>taxonomy concepts concept item_data us usd.
        facts_data taxonomy = Some concepts \<longrightarrow> concepts concept = Some item_data \<longrightarrow>
        units item_data = Some us \<longrightarrow> us ''USD'' = Some usd \<longrightarrow>
        (\<forall>entry \<in> set usd. \<exists>a. entry ''accn'' = Some a \<and> a \<noteq> JStr accession_number))"

text \<open>
  The repository and the report definition of the end-to-end scenario: two concepts under
  the taxonomy \<open>ns\<close>, each with one observation of the filing \<open>X1\<close>, stored under
  \<open>'units'\<close>, \<open>'USD'\<close> where the code reads them.
\<close>

definition scenario_facts :: "int facts_data" where
  "scenario_facts =
     [''ns'' \<mapsto> [''Revenues'' \<mapsto> usd_item [observation ''X1'' 1000],
                 ''NetIncomeLoss'' \<mapsto> usd_item [observation ''X1'' 200]]]"

definition scenario_items :: items where
  "scenario_items = [(''Revenue'', ''ns:Revenues''), (''Net Income'', ''ns:NetIncomeLoss'')]"

section \<open>Splitting and unpacking\<close>

lemma length_split_acc: "length (split_acc sep acc s) = Suc (count_list s sep)"
  by (induction s arbitrary: acc) auto

lemma length_split_str: "length (split_str s sep) = Suc (count_list s sep)"
  by (simp add: split_str_def length_split_acc)

lemma unpack2_Inr_iff: "(\<exists>a b. unpack2 xs = Inr (a, b)) \<longleftrightarrow> length xs = 2"
  by (cases xs rule: unpack2.cases) auto

lemma wf_item_key_unpack:
  "wf_item_key k \<Longrightarrow> \<exists>t c. unpack2 (split_str k CHR '':'') = Inr (t, c)"
  using unpack2_Inr_iff [of "split_str k CHR '':''"]
  by (simp add: wf_item_key_def length_split_str)

section \<open>The scan of one observation list\<close>

lemma find_Some_set: "find P xs = Some x \<Longrightarrow> x \<in> set xs \<and> P x"
  by (induction xs) (auto split: if_splits)

lemma find_by_filter: "find P xs = (case filter P xs of [] \<Rightarrow> None | x # _ \<Rightarrow> Some x)"
  by (induction xs) auto

lemma scan_entries_find:
  "\<forall>e \<in> set usd. e ''accn'' \<noteq> None \<Longrightarrow>
   scan_entries usd t =
     (case find (matches t) usd of
        None \<Rightarrow> Inr JNull
      | Some e \<Rightarrow> (case e ''val'' of None \<Rightarrow> Inl KeyError | Some v \<Rightarrow> Inr v))"
  by (induction usd) (auto simp: matches_def split: option.splits)

lemma scan_entries_value:
  "scan_entries usd t = Inr v \<Longrightarrow> v \<noteq> JNull \<Longrightarrow>
   \<exists>e. find (matches t) usd = Some e \<and> e ''val'' = Some v"
  by (induction usd) (auto simp: matches_def split: option.splits if_splits)

lemma wf_observation_accn: "wf_observation e \<Longrightarrow> \<exists>a. e ''accn'' = Some (JStr a)"
  by (auto simp: wf_observation_def split: option.splits jval.splits)

lemma wf_observation_val: "wf_observation e \<Longrightarrow> \<exists>n. e ''val'' = Some (JNum n)"
  by (auto simp: wf_observation_def split: option.splits jval.splits)

lemma wf_observation_observation: "wf_observation (observation a v)"
  by (simp add: wf_observation_def observation_def)

lemma scan_entries_wf:
  assumes "list_all wf_observation usd"
  shows "scan_entries usd t =
     (case find (matches t) usd of
        None \<Rightarrow> Inr JNull
      | Some e \<Rightarrow> Inr (the (e ''val'')))"
proof -
  have a: "\<forall>e \<in> set usd. e ''accn'' \<noteq> None"
    using assms wf_observation_accn by (fastforce simp: list_all_iff)
  show ?thesis
  proof (cases "find (matches t) usd")
    case None
    then show ?thesis using scan_entries_find [OF a, of t] by simp
  next
    case (Some e)
    then have "wf_observation e" using assms find_Some_set [of "matches t" usd e]
      by (simp add: list_all_iff)
    then obtain n where "e ''val'' = Some (JNum n)" using wf_observation_val by blast
    then show ?thesis using Some scan_entries_find [OF a, of t] by simp
  qed
qed

lemma scan_entries_other_accessions:
  "\<forall>e \<in> set usd. \<exists>a. e ''accn'' = Some a \<and> a \<noteq> JStr t \<Longrightarrow> scan_entries usd t = Inr JNull"
  by (induction usd) auto

section \<open>The dict update and the loop\<close>

lemma keys_dict_set: "fst ` set (dict_set d k v) = insert k (fst ` set d)"
  by (induction d k v rule: dict_set.induct) auto

lemma set_dict_set: "set (dict_set d k v) \<subseteq> insert (k, v) (set d)"
  by (induction d k v rule: dict_set.induct) auto

lemma distinct_dict_set: "distinct (map fst d) \<Longrightarrow> distinct (map fst (dict_set d k v))"
  by (induction d k v rule: dict_set.induct) (auto simp: keys_dict_set)

lemma process_item_label_value:
  "process_item f a d (l, k) =
     (case label_value f a k of
        Inl e \<Rightarrow> Inl e
      | Inr v \<Rightarrow> if v \<noteq> JNull then Inr (dict_set d l [v]) else Inr d)"
  by (simp add: process_item_def label_value_def split: sum.splits option.splits prod.splits)

lemma process_loop_keys:
  "process_loop f a items d = Inr row \<Longrightarrow>
   fst ` set row =
     fst ` set d \<union> {l. \<exists>k v. (l, k) \<in> set items \<and> label_value f a k = Inr v \<and> v \<noteq> JNull}"
proof (induction items arbitrary: d)
  case Nil
  then show ?case by simp
next
  case (Cons p items)
  obtain l k where p: "p = (l, k)" by (cases p)
  from Cons.prems obtain d' where step: "process_item f a d (l, k) = Inr d'"
    and rest: "process_loop f a items d' = Inr row"
    by (auto simp: p split: sum.splits)
  from step obtain v where v: "label_value f a k = Inr v"
    and d': "d' = (if v \<noteq> JNull then dict_set d l [v] else d)"
    by (auto simp: process_item_label_value split: sum.splits if_splits)
  show ?case
    unfolding Cons.IH [OF rest] using v d' by (auto simp: p keys_dict_set)
qed

lemma process_loop_distinct:
  "process_loop f a items d = Inr row \<Longrightarrow> distinct (map fst d) \<Longrightarrow> distinct (map fst row)"
proof (induction items arbitrary: d)
  case Nil
  then show ?case by simp
next
  case (Cons p items)
  obtain l k where p: "p = (l, k)" by (cases p)
  from Cons.prems obtain d' where step: "process_item f a d (l, k) = Inr d'"
    and rest: "process_loop f a items d' = Inr row"
    by (auto simp: p split: sum.splits)
  from step Cons.prems(2) have "distinct (map fst d')"
    by (auto simp: process_item_label_value distinct_dict_set split: sum.splits if_splits)
  then show ?case using Cons.IH [OF rest] by simp
qed

lemma process_loop_values:
  "process_loop f a items d = Inr row \<Longrightarrow> (l, vs) \<in> set row \<Longrightarrow>
   (l, vs) \<in> set d \<or>
   (\<exists>k v. (l, k) \<in> set items \<and> label_value f a k = Inr v \<and> v \<noteq> JNull \<and> vs = [v])"
proof (induction items arbitrary: d)
  case Nil
  then show ?case by simp
next
  case (Cons p items)
  obtain l' k' where p: "p = (l', k')" by (cases p)
  from Cons.prems obtain d' where step: "process_item f a d (l', k') = Inr d'"
    and rest: "process_loop f a items d' = Inr row"
    by (auto simp: p split: sum.splits)
  from step obtain v where v: "label_value f a k' = Inr v"
    and d': "d' = (if v \<noteq> JNull then dict_set d l' [v] else d)"
    by (auto simp: process_item_label_value split: sum.splits if_splits)
  from Cons.IH [OF rest Cons.prems(2)] show ?case
  proof
    assume "(l, vs) \<in> set d'"
    then have "(l, vs) \<in> set d \<or> (v \<noteq> JNull \<and> (l, vs) = (l', [v]))"
      using d' set_dict_set [of d l' "[v]"] by (auto split: if_splits)
    then show ?thesis using v by (auto simp: p)
  next
    assume "\<exists>k v. (l, k) \<in> set items \<and> label_value f a k = Inr v \<and> v \<noteq> JNull \<and> vs = [v]"
    then show ?thesis by auto
  qed
qed

lemma process_loop_total:
  "\<forall>(l, k) \<in> set items. \<exists>v. label_value f a k = Inr v \<Longrightarrow>
   \<exists>row. process_loop f a items d = Inr row"
proof (induction items arbitrary: d)
  case Nil
  then show ?case by simp
next
  case (Cons p items)
  obtain l k where p: "p = (l, k)" by (cases p)
  from Cons.prems obtain v where v: "label_value f a k = Inr v" by (auto simp: p)
  then have "\<exists>d'. process_item f a d p = Inr d'"
    by (cases "v = JNull") (simp_all add: p process_item_label_value)
  then obtain d' where "process_item f a d p = Inr d'" ..
  moreover have "\<exists>row. process_loop f a items d' = Inr row"
    using Cons.IH [of d'] Cons.prems by simp
  ultimately show ?case by simp
qed

lemma process_loop_no_value:
  "\<forall>(l, k) \<in> set items. label_value f a k = Inr JNull \<Longrightarrow> process_loop f a items d = Inr d"
  by (induction items arbitrary: d) (auto simp: process_item_label_value)

lemma get_value_for_accession_wf:
  assumes "units item = Some us \<longrightarrow> us ''USD'' = Some usd \<longrightarrow> list_all wf_observation usd"
  shows "units item = Some us \<Longrightarrow> us ''USD'' = Some usd \<Longrightarrow>
    \<exists>v. get_value_for_accession item a = Inr v"
  using assms
  by (simp add: get_value_for_accession_def scan_entries_wf split: option.splits)

lemma label_value_wf:
  assumes "wf_facts f" and "wf_item_key k"
  shows "\<exists>v. label_value f a k = Inr v"
proof -
  obtain t c where tc: "unpack2 (split_str k CHR '':'') = Inr (t, c)"
    using wf_item_key_unpack [OF assms(2)] by blast
  show ?thesis
  proof (cases "f t")
    case None
    then show ?thesis by (simp add: label_value_def tc)
  next
    case (Some cs)
    note ft = Some
    show ?thesis
    proof (cases "cs c")
      case None
      then show ?thesis by (simp add: label_value_def tc ft)
    next
      case (Some item)
      have "\<exists>v. get_value_for_accession item a = Inr v"
      proof (cases "units item")
        case None
        then show ?thesis by (simp add: get_value_for_accession_def)
      next
        case (Some us)
        note u = Some
        show ?thesis
        proof (cases "us ''USD''")
          case None
          then show ?thesis by (simp add: get_value_for_accession_def u)
        next
          case (Some usd)
          have "list_all wf_observation usd"
            using assms(1) ft \<open>cs c = Some item\<close> u Some unfolding wf_facts_def by blast
          then show ?thesis using get_value_for_accession_wf [OF _ u Some] by simp
        qed
      qed
      then show ?thesis by (simp add: label_value_def tc ft Some)
    qed
  qed
qed

section \<open>Item value lookup\<close>

text \<open>
  C1. For an item record whose \<open>'USD'\<close> list holds well-formed observations,
  \<open>get_value_for_accession\<close> returns the number of the first observation of the list whose
  accession field equals the target, and \<open>None\<close> when no observation matches. For the list
  \<open>[{accn: "A", val: 10}, {accn: "B", val: 20}]\<close> the lookup of \<open>"A"\<close> gives 10, of \<open>"B"\<close>
  gives 20, and of any other accession gives \<open>None\<close>.
\<close>

theorem lookup_first_match:
  "(units item_data = Some us \<longrightarrow> us ''USD'' = Some usd \<longrightarrow> list_all wf_observation usd \<longrightarrow>
      (case find (matches t) usd of
         None \<Rightarrow> get_value_for_accession item_data t = Inr JNull
       | Some e \<Rightarrow> \<exists>n. e ''val'' = Some (JNum n) \<and>
                      get_value_for_accession item_data t = Inr (JNum n)))
   \<and> get_value_for_accession
       (usd_item [observation ''A'' (10::int), observation ''B'' 20]) ''A'' = Inr (JNum 10)
   \<and> get_value_for_accession
       (usd_item [observation ''A'' (10::int), observation ''B'' 20]) ''B'' = Inr (JNum 20)
   \<and> (other \<noteq> ''A'' \<longrightarrow> other \<noteq> ''B'' \<longrightarrow>
        get_value_for_accession
          (usd_item [observation ''A'' (10::int), observation ''B'' 20]) other = Inr JNull)"
proof -
  have general: "case find (matches t) usd of
         None \<Rightarrow> get_value_for_accession item_data t = Inr JNull
       | Some e \<Rightarrow> \<exists>n. e ''val'' = Some (JNum n) \<and>
                      get_value_for_accession item_data t = Inr (JNum n)"
    if u: "units item_data = Some us" "us ''USD'' = Some usd" and wf: "list_all wf_observation usd"
  proof (cases "find (matches t) usd")
    case None
    then show ?thesis
      by (simp add: get_value_for_accession_def u scan_entries_wf [OF wf])
  next
    case (Some e)
    then have "wf_observation e"
      using wf find_Some_set [of "matches t" usd e] by (simp add: list_all_iff)
    then obtain n where "e ''val'' = Some (JNum n)" using wf_observation_val by blast
    then show ?thesis
      using Some by (simp add: get_value_for_accession_def u scan_entries_wf [OF wf])
  qed
  have ex: "get_value_for_accession (usd_item [observation ''A'' (10::int), observation ''B'' 20]) x
      = (if x = ''A'' then Inr (JNum 10) else if x = ''B'' then Inr (JNum 20) else Inr JNull)"
    for x
    by (simp add: get_value_for_accession_def usd_item_def observation_def)
  show ?thesis using general by (simp add: ex)
qed

theorem lookup_first_match_witness:
  "list_all wf_observation
     [observation ''A'' (10::int), observation ''A'' 30, observation ''B'' 20]
   \<and> find (matches ''A'') [observation ''A'' (10::int), observation ''A'' 30, observation ''B'' 20]
       = Some (observation ''A'' 10)
   \<and> get_value_for_accession
       (usd_item [observation ''A'' (10::int), observation ''A'' 30, observation ''B'' 20]) ''A''
       = Inr (JNum 10)
   \<and> find (matches ''C'') [observation ''A'' (10::int), observation ''A'' 30, observation ''B'' 20]
       = None
   \<and> get_value_for_accession
       (usd_item [observation ''A'' (10::int), observation ''A'' 30, observation ''B'' 20]) ''C''
       = Inr JNull"
proof -
  let ?usd = "[observation ''A'' (10::int), observation ''A'' 30, observation ''B'' 20]"
  have wf: "list_all wf_observation ?usd"
    by (simp add: wf_observation_observation)
  have u: "units (usd_item ?usd) = Some [''USD'' \<mapsto> ?usd]" "[''USD'' \<mapsto> ?usd] ''USD'' = Some ?usd"
    by (simp_all add: usd_item_def)
  have fA: "find (matches ''A'') ?usd = Some (observation ''A'' 10)"
    by (simp add: matches_def observation_def)
  have fC: "find (matches ''C'') ?usd = None"
    by (simp add: matches_def observation_def)
  have vA: "observation ''A'' (10::int) ''val'' = Some (JNum 10)"
    by (simp add: observation_def)
  note general = lookup_first_match [THEN conjunct1, rule_format, OF u wf]
  have "get_value_for_accession (usd_item ?usd) ''A'' = Inr (JNum 10)"
    using general [of "''A''"] unfolding fA by (simp add: vA)
  moreover have "get_value_for_accession (usd_item ?usd) ''C'' = Inr JNull"
    using general [of "''C''"] unfolding fC by simp
  ultimately show ?thesis using wf fA fC by simp
qed

text \<open>
  C10. An item record without the \<open>'units'\<close> key gives \<open>None\<close> for every accession; the
  lookup does not raise.
\<close>

theorem lookup_missing_units:
  "units item_data = None \<Longrightarrow> get_value_for_accession item_data t = Inr JNull"
  by (simp add: get_value_for_accession_def)

theorem lookup_missing_units_witness:
  "units (\<lparr>units = None\<rparr> :: int item_data) = None
   \<and> get_value_for_accession (\<lparr>units = None\<rparr> :: int item_data) ''0000320193-23-000001'' = Inr JNull"
  using lookup_missing_units [of "\<lparr>units = None\<rparr> :: int item_data" "''0000320193-23-000001''"]
  by simp

text \<open>
  C6. When the \<open>'USD'\<close> key is absent from the units of an item record, and when it is
  present with an empty list, the lookup gives \<open>None\<close> for every accession; the two
  records give the same result.
\<close>

theorem lookup_usd_absent_or_empty:
  "(units item_data = Some us \<longrightarrow> (us ''USD'' = None \<or> us ''USD'' = Some []) \<longrightarrow>
      get_value_for_accession item_data t = Inr JNull)
   \<and> get_value_for_accession (item_data\<lparr>units := Some (us(''USD'' := None))\<rparr>) t
     = get_value_for_accession (item_data\<lparr>units := Some (us(''USD'' \<mapsto> []))\<rparr>) t"
proof -
  have "get_value_for_accession item_data t = Inr JNull"
    if "units item_data = Some us" and "us ''USD'' = None \<or> us ''USD'' = Some []"
    using that(2) by (rule disjE) (simp_all add: get_value_for_accession_def that(1))
  moreover have "get_value_for_accession (item_data\<lparr>units := Some (us(''USD'' := None))\<rparr>) t
      = Inr JNull"
    by (simp add: get_value_for_accession_def)
  moreover have "get_value_for_accession (item_data\<lparr>units := Some (us(''USD'' \<mapsto> []))\<rparr>) t
      = Inr JNull"
    by (simp add: get_value_for_accession_def)
  ultimately show ?thesis by simp
qed

theorem lookup_usd_absent_or_empty_witness:
  "get_value_for_accession \<lparr>units = Some [''shares'' \<mapsto> [observation ''A'' (7::int)]]\<rparr> ''A''
     = Inr JNull
   \<and> get_value_for_accession
       \<lparr>units = Some [''shares'' \<mapsto> [observation ''A'' (7::int)], ''USD'' \<mapsto> []]\<rparr> ''A''
     = Inr JNull"
proof -
  let ?absent = "[''shares'' \<mapsto> [observation ''A'' (7::int)]]"
  let ?empty = "[''shares'' \<mapsto> [observation ''A'' (7::int)], ''USD'' \<mapsto> []]"
  have a: "units \<lparr>units = Some ?absent\<rparr> = Some ?absent" by simp
  have a': "?absent ''USD'' = None \<or> ?absent ''USD'' = Some []" by simp
  have e: "units \<lparr>units = Some ?empty\<rparr> = Some ?empty" by simp
  have e': "?empty ''USD'' = None \<or> ?empty ''USD'' = Some []" by simp
  show ?thesis
    using lookup_usd_absent_or_empty [THEN conjunct1, rule_format, OF a a', of "''A''"]
      lookup_usd_absent_or_empty [THEN conjunct1, rule_format, OF e e', of "''A''"]
    by (rule conjI)
qed

text \<open>
  C3. A value returned by \<open>get_value_for_accession\<close> is the \<open>'val'\<close> of an entry of the
  \<open>'USD'\<close> list whose \<open>'accn'\<close> is the target accession, never of an entry of another
  filing. Hence a repository whose observations all belong to other filings projects to
  the empty row, as the scenario repository (observations of \<open>X1\<close> only) does for the
  target \<open>X2\<close>.
\<close>

theorem lookup_same_accession_only:
  "(get_value_for_accession item_data t = Inr v \<longrightarrow> v \<noteq> JNull \<longrightarrow>
      (\<exists>us usd e. units item_data = Some us \<and> us ''USD'' = Some usd \<and> e \<in> set usd \<and>
         e ''accn'' = Some (JStr t) \<and> e ''val'' = Some v))
   \<and> (wf_items items \<longrightarrow> no_observation_for t facts_data \<longrightarrow>
        process_financial_statement facts_data items filing_date t = Inr [])
   \<and> process_financial_statement
scenario_facts scenario_items filing_date ''X2'' = Inr []"
proof -
  have one: "\<exists>us usd e. units item_data = Some us \<and> us ''USD'' = Some usd \<and> e \<in> set usd \<and>
         e ''accn'' = Some (JStr t) \<and> e ''val'' = Some v"
    if r: "get_value_for_accession item_data t = Inr v" and v: "v \<noteq> JNull"
  proof -
    from r v obtain us usd where u: "units item_data = Some us" "us ''USD'' = Some usd"
      and s: "scan_entries usd t = Inr v"
      by (auto simp: get_value_for_accession_def split: option.splits)
    from scan_entries_value [OF s v] obtain e
      where "find (matches t) usd = Some e" and "e ''val'' = Some v" by blast
    then show ?thesis
      using u find_Some_set [of "matches t" usd e] by (auto simp: matches_def)
  qed
  have two: "process_financial_statement facts_data items filing_date t = Inr []"
    if wi: "wf_items items" and no: "no_observation_for t facts_data"
  proof -
    have "label_value facts_data t k = Inr JNull" if kw: "wf_item_key k" for k
    proof -
      obtain tx c where tc: "unpack2 (split_str k CHR '':'') = Inr (tx, c)"
        using wf_item_key_unpack [OF kw] by blast
      have "get_value_for_accession item t = Inr JNull"
        if look: "facts_data tx = Some cs" "cs c = Some item" for cs item
      proof (cases "units item")
        case None
        then show ?thesis by (simp add: get_value_for_accession_def)
      next
        case (Some us)
        note u = Some
        show ?thesis
        proof (cases "us ''USD''")
          case None
          then show ?thesis by (simp add: get_value_for_accession_def u)
        next
          case (Some usd)
          have "\<forall>e \<in> set usd. \<exists>a. e ''accn'' = Some a \<and> a \<noteq> JStr t"
            using no look u Some unfolding no_observation_for_def by blast
          then show ?thesis
            by (simp add: get_value_for_accession_def u Some scan_entries_other_accessions)
        qed
      qed
      then show ?thesis
        by (simp add: label_value_def tc split: option.splits)
    qed
    then have "\<forall>(l, k) \<in> set items. label_value facts_data t k = Inr JNull"
      using wi by (auto simp: wf_items_def list_all_iff)
    then show ?thesis
      by (simp add: process_financial_statement_def process_loop_no_value)
  qed
  have three: "process_financial_statement
scenario_facts scenario_items filing_date ''X2'' = Inr []"
    by (simp add: process_financial_statement_def process_item_def split_str_def
        get_value_for_accession_def usd_item_def observation_def
        scenario_facts_def scenario_items_def)
  from one two three show ?thesis by blast
qed

theorem lookup_same_accession_only_witness:
  "get_value_for_accession
     (usd_item [observation ''X1'' (1000::int), observation ''X2'' 5]) ''X2'' = Inr (JNum 5)
   \<and> (\<exists>us usd e.
         units (usd_item [observation ''X1'' (1000::int), observation ''X2'' 5]) = Some us \<and>
         us ''USD'' = Some usd \<and> e \<in> set usd \<and>
         e ''accn'' = Some (JStr ''X2'') \<and> e ''val'' = Some (JNum 5))
   \<and> wf_items scenario_items
   \<and> no_observation_for ''X2'' scenario_facts
   \<and> process_financial_statement scenario_facts scenario_items ''2023-01-01'' ''X2'' = Inr []"
proof -
  let ?item = "usd_item [observation ''X1'' (1000::int), observation ''X2'' 5]"
  have r: "get_value_for_accession ?item ''X2'' = Inr (JNum 5)"
    by (simp add: get_value_for_accession_def usd_item_def observation_def)
  have v: "JNum (5::int) \<noteq> JNull" by simp
  have wi: "wf_items scenario_items"
    by (simp add: wf_items_def wf_item_key_def scenario_items_def)
  have no: "no_observation_for ''X2'' scenario_facts"
    unfolding no_observation_for_def scenario_facts_def
    by (auto simp: usd_item_def observation_def split: if_splits)
  note inst = lookup_same_accession_only [of ?item "''X2''" "JNum 5" scenario_items scenario_facts
      "''2023-01-01''"]
  from inst r v wi no show ?thesis by blast
qed

section \<open>Report projection\<close>

lemma label_value_absent:
  assumes "unpack2 (split_str k CHR '':'') = Inr (taxonomy, concept)"
    and "f taxonomy = None \<or> (\<exists>cs. f taxonomy = Some cs \<and> cs concept = None) \<or>
      (\<exists>cs item. f taxonomy = Some cs \<and> cs concept = Some item \<and>
         get_value_for_accession item t = Inr JNull)"
  shows "label_value f t k = Inr JNull"
  using assms(2) by (auto simp: label_value_def assms(1))

lemma process_loop_not_null:
  "process_loop f a items d = Inr row \<Longrightarrow> (l, vs) \<in> set row \<Longrightarrow>
   (l, vs) \<in> set d \<or> JNull \<notin> set vs"
  using process_loop_values [of f a items d row l vs] by auto

text \<open>
  C2. In a report definition (a dict, so its labels are distinct), a label whose
  taxonomy or concept is absent from the repository, or whose lookup gives \<open>None\<close> for the
  target accession, is not a key of the resulting row; and no column of a row holds
  \<open>None\<close>. Projecting \<open>{X: "ns:a", Y: "ns:b"}\<close> on a repository with only the concept
  \<open>a\<close> at the target accession gives exactly \<open>{X: [value]}\<close>.
\<close>

theorem projection_omits_missing:
  "(distinct (map fst items) \<longrightarrow>
    process_financial_statement facts_data items filing_date t = Inr row \<longrightarrow>
    (label, item_key) \<in> set items \<longrightarrow>
    unpack2 (split_str item_key CHR '':'') = Inr (taxonomy, concept) \<longrightarrow>
    (facts_data taxonomy = None \<or>
     (\<exists>cs. facts_data taxonomy = Some cs \<and> cs concept = None) \<or>
     (\<exists>cs item. facts_data taxonomy = Some cs \<and> cs concept = Some item \<and>
        get_value_for_accession item t = Inr JNull)) \<longrightarrow>
    label \<notin> fst ` set row)
   \<and> (process_financial_statement facts_data items filing_date t = Inr row \<longrightarrow>
        (\<forall>(l, vs) \<in> set row. JNull \<notin> set vs))
   \<and> process_financial_statement
        [''ns'' \<mapsto> [''a'' \<mapsto> usd_item [observation t v]]]
        [(''X'', ''ns:a''), (''Y'', ''ns:b'')] filing_date t
      = Inr [(''X'', [JNum v])]"
proof -
  have one: "label \<notin> fst ` set row"
    if d: "distinct (map fst items)"
      and r: "process_financial_statement facts_data items filing_date t = Inr row"
      and m: "(label, item_key) \<in> set items"
      and u: "unpack2 (split_str item_key CHR '':'') = Inr (taxonomy, concept)"
      and a: "facts_data taxonomy = None \<or>
        (\<exists>cs. facts_data taxonomy = Some cs \<and> cs concept = None) \<or>
        (\<exists>cs item. facts_data taxonomy = Some cs \<and> cs concept = Some item \<and>
           get_value_for_accession item t = Inr JNull)"
  proof
    assume "label \<in> fst ` set row"
    then obtain k v where k: "(label, k) \<in> set items"
      and v: "label_value facts_data t k = Inr v" "v \<noteq> JNull"
      using process_loop_keys [OF r [unfolded process_financial_statement_def]] by auto
    from d k m have "k = item_key" by (rule eq_key_imp_eq_value)
    then show False using v label_value_absent [of item_key taxonomy concept facts_data t, OF u a] by simp
  qed
  have two: "\<forall>(l, vs) \<in> set row. JNull \<notin> set vs"
    if r: "process_financial_statement facts_data items filing_date t = Inr row"
    using process_loop_not_null [OF r [unfolded process_financial_statement_def]] by auto
  have three: "process_financial_statement
        [''ns'' \<mapsto> [''a'' \<mapsto> usd_item [observation t v]]]
        [(''X'', ''ns:a''), (''Y'', ''ns:b'')] filing_date t
      = Inr [(''X'', [JNum v])]"
    by (simp add: process_financial_statement_def process_item_def split_str_def
        get_value_for_accession_def usd_item_def observation_def)
  from one two three show ?thesis by blast
qed

theorem projection_omits_missing_witness:
  "distinct (map fst [(''X'', ''ns:a''), (''Y'', ''ns:b'')])
   \<and> process_financial_statement
        [''ns'' \<mapsto> [''a'' \<mapsto> usd_item [observation ''X1'' (0::int)]]]
        [(''X'', ''ns:a''), (''Y'', ''ns:b'')] ''2023-01-01'' ''X1''
      = Inr [(''X'', [JNum 0])]
   \<and> unpack2 (split_str ''ns:b'' CHR '':'') = Inr (''ns'', ''b'')
   \<and> [''ns'' \<mapsto> [''a'' \<mapsto> usd_item [observation ''X1'' (0::int)]]] ''ns''
      = Some [''a'' \<mapsto> usd_item [observation ''X1'' (0::int)]]
   \<and> [''a'' \<mapsto> usd_item [observation ''X1'' (0::int)]] ''b'' = None
   \<and> ''Y'' \<notin> fst ` set [(''X'', [JNum (0::int)])]
   \<and> JNull \<notin> set [JNum (0::int)]"
proof -
  let ?facts = "[''ns'' \<mapsto> [''a'' \<mapsto> usd_item [observation ''X1'' (0::int)]]]"
  let ?items = "[(''X'', ''ns:a''), (''Y'', ''ns:b'')]"
  note inst = projection_omits_missing [of ?items ?facts "''2023-01-01''" "''X1''"
      "[(''X'', [JNum 0])]" "''Y''" "''ns:b''" "''ns''" "''b''" "0"]
  have d: "distinct (map fst ?items)" by simp
  have r: "process_financial_statement ?facts ?items ''2023-01-01'' ''X1'' = Inr [(''X'', [JNum 0])]"
    using inst by blast
  have m: "(''Y'', ''ns:b'') \<in> set ?items" by simp
  have u: "unpack2 (split_str ''ns:b'' CHR '':'') = Inr (''ns'', ''b'')"
    by (simp add: split_str_def)
  have f: "?facts ''ns'' = Some [''a'' \<mapsto> usd_item [observation ''X1'' (0::int)]]" by simp
  have c: "[''a'' \<mapsto> usd_item [observation ''X1'' (0::int)]] ''b'' = None" by simp
  have a: "?facts ''ns'' = None \<or>
     (\<exists>cs. ?facts ''ns'' = Some cs \<and> cs ''b'' = None) \<or>
     (\<exists>cs item. ?facts ''ns'' = Some cs \<and> cs ''b'' = Some item \<and>
        get_value_for_accession item ''X1'' = Inr JNull)"
    using f c by blast
  have y: "''Y'' \<notin> fst ` set [(''X'', [JNum (0::int)])]"
    using inst [THEN conjunct1, rule_format, OF d r m u a] .
  have n: "JNull \<notin> set [JNum (0::int)]"
    using inst [THEN conjunct2, THEN conjunct1, rule_format, OF r] by simp
  from d r u f c y n show ?thesis by blast
qed

text \<open>Well-formed inputs never reach a raise; the built-in definitions are well formed.\<close>

lemma wf_items_total:
  assumes "wf_items items" and "wf_facts f"
  shows "\<exists>row. process_financial_statement f items d t = Inr row"
proof -
  have "\<forall>(l, k) \<in> set items. \<exists>v. label_value f t k = Inr v"
    using assms label_value_wf [of f] by (auto simp: wf_items_def list_all_iff)
  then show ?thesis
    unfolding process_financial_statement_def by (rule process_loop_total)
qed

lemma wf_items_builtin:
  "wf_items income_items" "wf_items cash_flow_items" "wf_items balance_sheet_items"
  by (simp_all add: wf_items_def wf_item_key_def income_items_def cash_flow_items_def
      balance_sheet_items_def)

lemma wf_facts_scenario: "wf_facts scenario_facts"
  unfolding wf_facts_def scenario_facts_def
  by (auto simp: usd_item_def wf_observation_observation split: if_splits)

lemma wf_items_scenario: "wf_items scenario_items"
  by (simp add: wf_items_def wf_item_key_def scenario_items_def)

lemma scenario_X1:
  "process_financial_statement scenario_facts scenario_items d ''X1''
     = Inr [(''Revenue'', [JNum 1000]), (''Net Income'', [JNum 200])]"
  by (simp add: process_financial_statement_def process_item_def split_str_def
      get_value_for_accession_def usd_item_def observation_def
      scenario_facts_def scenario_items_def)

text \<open>
  C4. On a well-formed repository (every observation has an accession string and a
  number) and a well-formed report definition (every item key is one
  \<open>taxonomy:concept\<close> pair), \<open>process_financial_statement\<close> returns a row and raises
  nothing; so do the three statement processors on a well-formed repository. When no
  label of the definition finds a value, the result is the empty row.
\<close>

theorem projection_never_fails:
  "(wf_items items \<longrightarrow> wf_facts facts_data \<longrightarrow>
      (\<exists>row. process_financial_statement facts_data items filing_date t = Inr row))
   \<and> (wf_items items \<longrightarrow>
        (\<forall>(label, item_key) \<in> set items. \<forall>taxonomy concept cs item.
            unpack2 (split_str item_key CHR '':'') = Inr (taxonomy, concept) \<longrightarrow>
            facts_data taxonomy = Some cs \<longrightarrow> cs concept = Some item \<longrightarrow>
            get_value_for_accession item t = Inr JNull) \<longrightarrow>
        process_financial_statement facts_data items filing_date t = Inr [])
   \<and> (wf_facts facts_data \<longrightarrow>
        (\<exists>row. process_income_statement facts_data filing_date t = Inr row) \<and>
        (\<exists>row. process_cash_flow_statement facts_data filing_date t = Inr row) \<and>
        (\<exists>row. process_balance_sheet facts_data filing_date t = Inr row))"
proof -
  have two: "process_financial_statement facts_data items filing_date t = Inr []"
    if wi: "wf_items items"
      and no: "\<forall>(label, item_key) \<in> set items. \<forall>taxonomy concept cs item.
            unpack2 (split_str item_key CHR '':'') = Inr (taxonomy, concept) \<longrightarrow>
            facts_data taxonomy = Some cs \<longrightarrow> cs concept = Some item \<longrightarrow>
            get_value_for_accession item t = Inr JNull"
  proof -
    have "label_value facts_data t k = Inr JNull" if m: "(l, k) \<in> set items" for l k
    proof -
      have "wf_item_key k" using wi m by (auto simp: wf_items_def list_all_iff)
      then obtain tx c where tc: "unpack2 (split_str k CHR '':'') = Inr (tx, c)"
        using wf_item_key_unpack by blast
      have "get_value_for_accession item t = Inr JNull"
        if "facts_data tx = Some cs" "cs c = Some item" for cs item
        using no m tc that by blast
      then show ?thesis by (simp add: label_value_def tc split: option.splits)
    qed
    then have "\<forall>(l, k) \<in> set items. label_value facts_data t k = Inr JNull" by auto
    then show ?thesis
      by (simp add: process_financial_statement_def process_loop_no_value)
  qed
  show ?thesis
    using wf_items_total [of items facts_data filing_date t] two
      wf_items_total [OF wf_items_builtin(1), of facts_data filing_date t]
      wf_items_total [OF wf_items_builtin(2), of facts_data filing_date t]
      wf_items_total [OF wf_items_builtin(3), of facts_data filing_date t]
    unfolding process_income_statement_def process_cash_flow_statement_def
      process_balance_sheet_def
    by blast
qed

theorem projection_never_fails_witness:
  "wf_items scenario_items \<and> wf_facts scenario_facts
   \<and> (\<exists>row. process_financial_statement scenario_facts scenario_items ''2023-01-01'' ''X1''
         = Inr row)
   \<and> process_financial_statement scenario_facts scenario_items ''2023-01-01'' ''X2'' = Inr []
   \<and> (\<exists>row. process_income_statement scenario_facts ''2023-01-01'' ''X1'' = Inr row)"
proof -
  have no: "\<forall>(label, item_key) \<in> set scenario_items. \<forall>taxonomy concept cs item.
      unpack2 (split_str item_key CHR '':'') = Inr (taxonomy, concept) \<longrightarrow>
      scenario_facts taxonomy = Some cs \<longrightarrow> cs concept = Some item \<longrightarrow>
      get_value_for_accession item ''X2'' = Inr JNull"
    by (auto simp: scenario_items_def scenario_facts_def split_str_def
        get_value_for_accession_def usd_item_def observation_def split: if_splits)
  show ?thesis
    using projection_never_fails [of scenario_items scenario_facts "''2023-01-01''" "''X1''"]
      projection_never_fails [of scenario_items scenario_facts "''2023-01-01''" "''X2''"]
      wf_items_scenario wf_facts_scenario no
    by blast
qed

text \<open>
  C5. Every key of a row produced by \<open>process_financial_statement\<close> is a label of the
  report definition, no label occurs twice, and the column of a label holds exactly one
  value: the \<open>'val'\<close> of the first entry, in list order, of the \<open>'USD'\<close> list of the label's
  concept whose accession is the target.
\<close>

theorem row_labels_and_values:
  "process_financial_statement facts_data items filing_date t = Inr row \<Longrightarrow>
   fst ` set row \<subseteq> fst ` set items \<and> distinct (map fst row) \<and>
   (\<forall>(label, vs) \<in> set row.
      \<exists>item_key taxonomy concept cs item us usd e v.
        (label, item_key) \<in> set items \<and>
        unpack2 (split_str item_key CHR '':'') = Inr (taxonomy, concept) \<and>
        facts_data taxonomy = Some cs \<and> cs concept = Some item \<and>
        units item = Some us \<and> us ''USD'' = Some usd \<and>
        find (matches t) usd = Some e \<and> e ''val'' = Some v \<and> vs = [v])"
proof -
  assume "process_financial_statement facts_data items filing_date t = Inr row"
  then have r: "process_loop facts_data t items [] = Inr row"
    by (simp add: process_financial_statement_def)
  have keys: "fst ` set row \<subseteq> fst ` set items"
    using process_loop_keys [OF r] by force
  have dist: "distinct (map fst row)"
    using process_loop_distinct [OF r] by simp
  have vals: "\<exists>item_key taxonomy concept cs item us usd e v.
        (label, item_key) \<in> set items \<and>
        unpack2 (split_str item_key CHR '':'') = Inr (taxonomy, concept) \<and>
        facts_data taxonomy = Some cs \<and> cs concept = Some item \<and>
        units item = Some us \<and> us ''USD'' = Some usd \<and>
        find (matches t) usd = Some e \<and> e ''val'' = Some v \<and> vs = [v]"
    if m: "(label, vs) \<in> set row" for label vs
  proof -
    from process_loop_values [OF r m] obtain k v
      where k: "(label, k) \<in> set items" and lv: "label_value facts_data t k = Inr v"
        and v: "v \<noteq> JNull" and vs: "vs = [v]"
      by auto
    from lv v obtain tx c cs item
      where tc: "unpack2 (split_str k CHR '':'') = Inr (tx, c)"
        and look: "facts_data tx = Some cs" "cs c = Some item"
        and g: "get_value_for_accession item t = Inr v"
      by (auto simp: label_value_def split: sum.splits option.splits)
    from g v obtain us usd where u: "units item = Some us" "us ''USD'' = Some usd"
      and s: "scan_entries usd t = Inr v"
      by (auto simp: get_value_for_accession_def split: option.splits)
    from scan_entries_value [OF s v] obtain e
      where "find (matches t) usd = Some e" "e ''val'' = Some v" by blast
    with k tc look u vs show ?thesis by blast
  qed
  from keys dist vals show ?thesis by blast
qed

theorem row_labels_and_values_witness:
  "process_financial_statement
     [''ns'' \<mapsto> [''a'' \<mapsto> usd_item [observation ''X1'' (1::int), observation ''X1'' 2]]]
     [(''X'', ''ns:a'')] ''2023-01-01'' ''X1'' = Inr [(''X'', [JNum 1])]
   \<and> fst ` set [(''X'', [JNum (1::int)])] \<subseteq> fst ` set [(''X'', ''ns:a'')]
   \<and> distinct (map fst [(''X'', [JNum (1::int)])])"
proof -
  have r: "process_financial_statement
     [''ns'' \<mapsto> [''a'' \<mapsto> usd_item [observation ''X1'' (1::int), observation ''X1'' 2]]]
     [(''X'', ''ns:a'')] ''2023-01-01'' ''X1'' = Inr [(''X'', [JNum 1])]"
    by (simp add: process_financial_statement_def process_item_def split_str_def
        get_value_for_accession_def usd_item_def observation_def)
  from r row_labels_and_values [OF r] show ?thesis by blast
qed

section \<open>Order of the observations\<close>

lemma filter_single_mset:
  assumes "mset ys = mset xs" and "length (filter P xs) = 1"
  shows "filter P ys = filter P xs"
proof -
  from assms(2) obtain e where e: "filter P xs = [e]"
    by (cases "filter P xs") auto
  have "mset (filter P ys) = mset (filter P xs)"
    using assms(1) by (simp only: mset_filter)
  then have "mset (filter P ys) = {#e#}" by (simp add: e)
  then have "filter P ys = [e]" by (simp only: mset_single_iff)
  then show ?thesis by (simp add: e)
qed

text \<open>
  C8. When the \<open>'USD'\<close> lists of two item records hold the same well-formed observations
  in different orders, and exactly one of them belongs to the target accession, the
  lookup gives the same result on both records.
\<close>

theorem lookup_order_independent:
  assumes "units item_data = Some us" and "us ''USD'' = Some usd"
    and "units item_data' = Some us'" and "us' ''USD'' = Some usd'"
    and "mset usd' = mset usd"
    and "list_all wf_observation usd"
    and "length (filter (matches t) usd) = 1"
  shows "get_value_for_accession item_data' t = get_value_for_accession item_data t"
proof -
  have "set usd' = set usd" using assms(5) by (rule mset_eq_setD)
  then have wf': "list_all wf_observation usd'"
    using assms(6) by (simp add: list_all_iff)
  have "find (matches t) usd' = find (matches t) usd"
    by (simp add: find_by_filter filter_single_mset [OF assms(5) assms(7)])
  then have "scan_entries usd' t = scan_entries usd t"
    by (simp add: scan_entries_wf [OF wf'] scan_entries_wf [OF assms(6)])
  then show ?thesis
    by (simp add: get_value_for_accession_def assms(1-4))
qed

theorem lookup_order_independent_witness:
  "mset [observation ''C'' 30, observation ''A'' (10::int), observation ''B'' 20]
     = mset [observation ''A'' 10, observation ''B'' 20, observation ''C'' 30]
   \<and> list_all wf_observation [observation ''A'' (10::int), observation ''B'' 20, observation ''C'' 30]
   \<and> length (filter (matches ''B'')
        [observation ''A'' (10::int), observation ''B'' 20, observation ''C'' 30]) = 1
   \<and> get_value_for_accession
        (usd_item [observation ''C'' 30, observation ''A'' (10::int), observation ''B'' 20]) ''B''
      = get_value_for_accession
        (usd_item [observation ''A'' 10, observation ''B'' 20, observation ''C'' 30]) ''B''
   \<and> get_value_for_accession
        (usd_item [observation ''A'' (10::int), observation ''B'' 20, observation ''C'' 30]) ''B''
      = Inr (JNum 20)"
proof -
  let ?usd = "[observation ''A'' (10::int), observation ''B'' 20, observation ''C'' 30]"
  let ?usd' = "[observation ''C'' 30, observation ''A'' (10::int), observation ''B'' 20]"
  have u: "units (usd_item ?usd) = Some [''USD'' \<mapsto> ?usd]" "[''USD'' \<mapsto> ?usd] ''USD'' = Some ?usd"
    by (simp_all add: usd_item_def)
  have u': "units (usd_item ?usd') = Some [''USD'' \<mapsto> ?usd']"
    "[''USD'' \<mapsto> ?usd'] ''USD'' = Some ?usd'"
    by (simp_all add: usd_item_def)
  have p: "mset ?usd' = mset ?usd" by simp
  have wf: "list_all wf_observation ?usd" by (simp add: wf_observation_observation)
  have one: "length (filter (matches ''B'') ?usd) = 1"
    by (simp add: matches_def observation_def)
  have v: "get_value_for_accession (usd_item ?usd) ''B'' = Inr (JNum 20)"
    by (simp add: get_value_for_accession_def usd_item_def observation_def)
  from p wf one v lookup_order_independent [OF u u' p wf one] show ?thesis by blast
qed

section \<open>Built-in report definitions\<close>

text \<open>
  The test of \<open>process_income_statement\<close> in \<open>test_EDGAR_SEC.py\<close>, run on the model.
\<close>

lemma income_statement_test:
  "process_income_statement
     [''us-gaap'' \<mapsto> [''Revenues'' \<mapsto> usd_item [observation ''0000320193-23-000001'' (1000::int)],
                       ''NetIncomeLoss'' \<mapsto> usd_item [observation ''0000320193-23-000001'' 200]]]
     ''2023-01-01'' ''0000320193-23-000001''
   = Inr [(''Revenue'', [JNum 1000]), (''Net Income'', [JNum 200])]"
  by (simp add: process_income_statement_def income_items_def
      process_financial_statement_def process_item_def split_str_def
      get_value_for_accession_def usd_item_def observation_def)

text \<open>
  C7. The three built-in report definitions hold the listed labels in the listed order,
  and the loop's split of every item key gives the taxonomy \<open>us-gaap\<close> and the listed
  concept; each statement processor projects its own definition.
\<close>

theorem builtin_report_definitions:
  "map (\<lambda>(label, item_key). (label, split_str item_key CHR '':'')) income_items =
     [(''Revenue'', [''us-gaap'', ''Revenues'']),
      (''Cost of Revenue'', [''us-gaap'', ''CostOfRevenue'']),
      (''Gross Profit'', [''us-gaap'', ''GrossProfit'']),
      (''Operating Expenses'', [''us-gaap'', ''OperatingExpenses'']),
      (''Operating Income'', [''us-gaap'', ''OperatingIncomeLoss'']),
      (''Net Income'', [''us-gaap'', ''NetIncomeLoss''])]
   \<and> map (\<lambda>(label, item_key). (label, split_str item_key CHR '':'')) cash_flow_items =
     [(''Cash from Operating Activities'',
         [''us-gaap'', ''NetCashProvidedByUsedInOperatingActivities'']),
      (''Cash from Investing Activities'',
         [''us-gaap'', ''NetCashProvidedByUsedInInvestingActivities'']),
      (''Cash from Financing Activities'',
         [''us-gaap'', ''NetCashProvidedByUsedInFinancingActivities'']),
      (''Net Change in Cash'', [''us-gaap'', ''NetIncreaseDecreaseInCash''])]
   \<and> map (\<lambda>(label, item_key). (label, split_str item_key CHR '':'')) balance_sheet_items =
     [(''Total Assets'', [''us-gaap'', ''Assets'']),
      (''Total Liabilities'', [''us-gaap'', ''Liabilities'']),
      (''Total Equity'', [''us-gaap'', ''StockholdersEquity'']),
      (''Cash and Cash Equivalents'', [''us-gaap'', ''CashAndCashEquivalentsAtCarryingValue'']),
      (''Total Current Assets'', [''us-gaap'', ''AssetsCurrent'']),
      (''Total Current Liabilities'', [''us-gaap'', ''LiabilitiesCurrent''])]
   \<and> process_income_statement facts_data filing_date t =
       process_financial_statement facts_data income_items filing_date t
   \<and> process_cash_flow_statement facts_data filing_date t =
       process_financial_statement facts_data cash_flow_items filing_date t
   \<and> process_balance_sheet facts_data filing_date t =
       process_financial_statement facts_data balance_sheet_items filing_date t"
proof -
  have "map (\<lambda>(label, item_key). (label, split_str item_key CHR '':'')) income_items =
     [(''Revenue'', [''us-gaap'', ''Revenues'']),
      (''Cost of Revenue'', [''us-gaap'', ''CostOfRevenue'']),
      (''Gross Profit'', [''us-gaap'', ''GrossProfit'']),
      (''Operating Expenses'', [''us-gaap'', ''OperatingExpenses'']),
      (''Operating Income'', [''us-gaap'', ''OperatingIncomeLoss'']),
      (''Net Income'', [''us-gaap'', ''NetIncomeLoss''])]"
    by (simp add: income_items_def split_str_def)
  moreover have "map (\<lambda>(label, item_key). (label, split_str item_key CHR '':'')) cash_flow_items =
     [(''Cash from Operating Activities'',
         [''us-gaap'', ''NetCashProvidedByUsedInOperatingActivities'']),
      (''Cash from Investing Activities'',
         [''us-gaap'', ''NetCashProvidedByUsedInInvestingActivities'']),
      (''Cash from Financing Activities'',
         [''us-gaap'', ''NetCashProvidedByUsedInFinancingActivities'']),
      (''Net Change in Cash'', [''us-gaap'', ''NetIncreaseDecreaseInCash''])]"
    by (simp add: cash_flow_items_def split_str_def)
  moreover have "map (\<lambda>(label, item_key). (label, split_str item_key CHR '':'')) balance_sheet_items =
     [(''Total Assets'', [''us-gaap'', ''Assets'']),
      (''Total Liabilities'', [''us-gaap'', ''Liabilities'']),
      (''Total Equity'', [''us-gaap'', ''StockholdersEquity'']),
      (''Cash and Cash Equivalents'', [''us-gaap'', ''CashAndCashEquivalentsAtCarryingValue'']),
      (''Total Current Assets'', [''us-gaap'', ''AssetsCurrent'']),
      (''Total Current Liabilities'', [''us-gaap'', ''LiabilitiesCurrent''])]"
    by (simp add: balance_sheet_items_def split_str_def)
  ultimately show ?thesis
    by (simp only: process_income_statement_def process_cash_flow_statement_def
        process_balance_sheet_def simp_thms)
qed

theorem builtin_report_definitions_witness:
  "process_income_statement
     [''us-gaap'' \<mapsto> [''Revenues'' \<mapsto> usd_item [observation ''0000320193-23-000001'' (1000::int)],
                       ''NetIncomeLoss'' \<mapsto> usd_item [observation ''0000320193-23-000001'' 200]]]
     ''2023-01-01'' ''0000320193-23-000001''
   = process_financial_statement
     [''us-gaap'' \<mapsto> [''Revenues'' \<mapsto> usd_item [observation ''0000320193-23-000001'' (1000::int)],
                       ''NetIncomeLoss'' \<mapsto> usd_item [observation ''0000320193-23-000001'' 200]]]
     income_items ''2023-01-01'' ''0000320193-23-000001''"
  using builtin_report_definitions [of
      "[''us-gaap'' \<mapsto> [''Revenues'' \<mapsto> usd_item [observation ''0000320193-23-000001'' (1000::int)],
                       ''NetIncomeLoss'' \<mapsto> usd_item [observation ''0000320193-23-000001'' 200]]]"
      "''2023-01-01''" "''0000320193-23-000001''"]
  by blast

section \<open>The filing date\<close>

text \<open>
  C9. The result of \<open>process_financial_statement\<close>, and of each of the three statement
  processors, is the same for any two values of \<open>filing_date\<close>.
\<close>

theorem filing_date_unused:
  "process_financial_statement facts_data items filing_date t =
     process_financial_statement facts_data items filing_date' t
   \<and> process_income_statement facts_data filing_date t =
       process_income_statement facts_data filing_date' t
   \<and> process_cash_flow_statement facts_data filing_date t =
       process_cash_flow_statement facts_data filing_date' t
   \<and> process_balance_sheet facts_data filing_date t =
       process_balance_sheet facts_data filing_date' t"
  by (simp add: process_financial_statement_def process_income_statement_def
      process_cash_flow_statement_def process_balance_sheet_def)

theorem filing_date_unused_witness:
  "process_financial_statement scenario_facts scenario_items ''2023-01-01'' ''X1'' =
     process_financial_statement scenario_facts scenario_items ''1999-12-31'' ''X1''
   \<and> process_income_statement scenario_facts ''2023-01-01'' ''X1'' =
       process_income_statement scenario_facts ''1999-12-31'' ''X1''
   \<and> process_cash_flow_statement scenario_facts ''2023-01-01'' ''X1'' =
       process_cash_flow_statement scenario_facts ''1999-12-31'' ''X1''
   \<and> process_balance_sheet scenario_facts ''2023-01-01'' ''X1'' =
       process_balance_sheet scenario_facts ''1999-12-31'' ''X1''"
  by (rule filing_date_unused)

end
